theory Spec2Isabelle
  imports Main
begin

section \<open>Configuration\<close>

text \<open>The module constants of \<^verbatim>\<open>python_game.py\<close>. Python integers are unbounded: \<open>int\<close>.\<close>

definition GX :: int where "GX = 32"
definition GY :: int where "GY = 12"
definition Q_SPAWN_INTERVAL :: int where "Q_SPAWN_INTERVAL = 10"
definition Q_MOVE_INTERVAL :: int where "Q_MOVE_INTERVAL = 2"
definition Q_RANGE :: int where "Q_RANGE = 2"

section \<open>The random source\<close>

text \<open>
  The program draws from Python's global \<^verbatim>\<open>random\<close> module. The model threads the source
  explicitly: an infinite sequence of raw draws, of which every call consumes the first.
  \<^verbatim>\<open>random.choice(xs)\<close> selects an element of a non-empty list, \<^verbatim>\<open>random.randint(a, b)\<close> an
  integer of the closed interval from \<open>a\<close> to \<open>b\<close>; every element and every integer of the
  interval is the result for some raw draw.
\<close>

type_synonym rand = "nat \<Rightarrow> nat"

definition random_choice :: "'a list \<Rightarrow> rand \<Rightarrow> 'a \<times> rand" where
  "random_choice xs r = (xs ! (r 0 mod length xs), \<lambda>n. r (Suc n))"

definition randint :: "int \<Rightarrow> int \<Rightarrow> rand \<Rightarrow> int \<times> rand" where
  "randint a b r = (a + int (r 0 mod nat (b - a + 1)), \<lambda>n. r (Suc n))"

section \<open>Entities\<close>

text \<open>
  \<^verbatim>\<open>class Entity\<close>: position, display character and solidity. The subclasses \<^verbatim>\<open>Enemy\<close>
  and \<^verbatim>\<open>QEnemy\<close> add no field that is ever read (\<^verbatim>\<open>move_cooldown\<close> is written once and
  never used); the program selects their behaviour by the character (\<^verbatim>\<open>get_enemies\<close>,
  \<^verbatim>\<open>get_q_enemies\<close>), and so does the model.
\<close>

record entity =
  ent_x :: int
  ent_y :: int
  ent_char :: string
  ent_solid :: bool

definition Entity :: "int \<Rightarrow> int \<Rightarrow> string \<Rightarrow> bool \<Rightarrow> entity" where
  "Entity x y c s = \<lparr>ent_x = x, ent_y = y, ent_char = c, ent_solid = s\<rparr>"

definition Enemy :: "int \<Rightarrow> int \<Rightarrow> entity" where
  "Enemy x y = Entity x y ''E'' True"

definition QEnemy :: "int \<Rightarrow> int \<Rightarrow> entity" where
  "QEnemy x y = Entity x y ''Q'' True"

section \<open>The world\<close>

text \<open>
  \<^verbatim>\<open>class World\<close>. The entity list holds references to mutable objects; the model keeps the
  objects in the list itself and refers to an object by its index. The list only grows at
  its end (\<^verbatim>\<open>add_entity\<close>) and nothing is ever removed, so an index keeps denoting the same
  object.
\<close>

record world =
  width :: int
  height :: int
  entities :: "entity list"
  game_over :: bool
  win :: bool

definition World :: "int \<Rightarrow> int \<Rightarrow> world" where
  "World w h = \<lparr>width = w, height = h, entities = [], game_over = False, win = False\<rparr>"

definition add_entity :: "world \<Rightarrow> entity \<Rightarrow> world" where
  "add_entity w e = w\<lparr>entities := entities w @ [e]\<rparr>"

definition get_entity_at :: "world \<Rightarrow> int \<Rightarrow> int \<Rightarrow> entity option" where
  "get_entity_at w x y = find (\<lambda>e. ent_x e = x \<and> ent_y e = y) (entities w)"

definition is_solid_at :: "world \<Rightarrow> int \<Rightarrow> int \<Rightarrow> bool" where
  "is_solid_at w x y =
     (if x < 0 \<or> x \<ge> width w \<or> y < 0 \<or> y \<ge> height w then True
      else list_ex (\<lambda>e. ent_solid e \<and> ent_x e = x \<and> ent_y e = y) (entities w))"

definition get_player :: "world \<Rightarrow> entity option" where
  "get_player w = find (\<lambda>e. ent_char e = ''@'') (entities w)"

text \<open>The two filters return references: here, the indices of the selected objects.\<close>

definition get_enemies :: "world \<Rightarrow> nat list" where
  "get_enemies w = filter (\<lambda>i. ent_char (entities w ! i) = ''E'') [0..<length (entities w)]"

definition get_q_enemies :: "world \<Rightarrow> nat list" where
  "get_q_enemies w = filter (\<lambda>i. ent_char (entities w ! i) = ''Q'') [0..<length (entities w)]"

section \<open>Enemy behaviour\<close>

definition moves :: "(int \<times> int) list" where
  "moves = [(1, 0), (-1, 0), (0, 1), (0, -1), (0, 0)]"

definition relocate :: "nat \<Rightarrow> int \<Rightarrow> int \<Rightarrow> world \<Rightarrow> world" where
  \<comment> \<open>\<^verbatim>\<open>self.x, self.y = new_x, new_y\<close> for the object at index \<open>i\<close>\<close>
  "relocate i nx ny w =
     w\<lparr>entities := (entities w)[i := (entities w ! i)\<lparr>ent_x := nx, ent_y := ny\<rparr>]\<rparr>"

text \<open>\<^verbatim>\<open>Enemy.take_turn\<close> once the move \<open>d\<close> has been drawn; \<open>i\<close> is \<^verbatim>\<open>self\<close>.\<close>

definition Enemy_act :: "nat \<Rightarrow> world \<Rightarrow> int \<times> int \<Rightarrow> world" where
  "Enemy_act i w d =
     (let self = entities w ! i;
          new_x = ent_x self + fst d;
          new_y = ent_y self + snd d
      in if is_solid_at w new_x new_y then w
         else (case get_player w of
                 Some p \<Rightarrow>
                   if ent_x p = new_x \<and> ent_y p = new_y then w\<lparr>game_over := True\<rparr>
                   else relocate i new_x new_y w
               | None \<Rightarrow> relocate i new_x new_y w))"

definition Enemy_take_turn :: "nat \<Rightarrow> world \<Rightarrow> rand \<Rightarrow> world \<times> rand" where
  "Enemy_take_turn i w r = (let (d, r') = random_choice moves r in (Enemy_act i w d, r'))"

text \<open>\<^verbatim>\<open>QEnemy.take_turn\<close> past the interval test, once the move \<open>d\<close> has been drawn.\<close>

definition QEnemy_act :: "nat \<Rightarrow> world \<Rightarrow> int \<times> int \<Rightarrow> world" where
  "QEnemy_act i w d =
     (let self = entities w ! i;
          new_x = ent_x self + fst d;
          new_y = ent_y self + snd d;
          moved = \<not> is_solid_at w new_x new_y;
          w1 = (if moved then relocate i new_x new_y w else w);
          self1 = (if moved then self\<lparr>ent_x := new_x, ent_y := new_y\<rparr> else self)
      in case get_player w1 of
           Some p \<Rightarrow>
             if \<bar>ent_x self1 - ent_x p\<bar> + \<bar>ent_y self1 - ent_y p\<bar> \<le> Q_RANGE
             then w1\<lparr>game_over := True\<rparr> else w1
         | None \<Rightarrow> w1)"

definition QEnemy_take_turn :: "nat \<Rightarrow> world \<Rightarrow> int \<Rightarrow> rand \<Rightarrow> world \<times> rand" where
  "QEnemy_take_turn i w pm r =
     (if pm mod Q_MOVE_INTERVAL \<noteq> 0 then (w, r)
      else (let (d, r') = random_choice moves r in (QEnemy_act i w d, r')))"

section \<open>The main loop\<close>

text \<open>
  The local variables of \<^verbatim>\<open>main\<close> that live across iterations, with the random source.
  \<open>player\<close> is the reference to the player object: its index in the entity list.
\<close>

record state =
  world :: world
  player :: nat
  direction :: "int \<times> int"
  player_moves :: int
  rng :: rand

text \<open>The two activation loops, over a snapshot of indices taken before the loop starts.\<close>

fun roamer_pass :: "nat list \<Rightarrow> world \<Rightarrow> rand \<Rightarrow> world \<times> rand" where
  "roamer_pass [] w r = (w, r)"
| "roamer_pass (i # is) w r =
     (let (w', r') = Enemy_take_turn i w r in roamer_pass is w' r')"

fun pursuer_pass :: "nat list \<Rightarrow> world \<Rightarrow> int \<Rightarrow> rand \<Rightarrow> world \<times> rand" where
  "pursuer_pass [] w pm r = (w, r)"
| "pursuer_pass (i # is) w pm r =
     (let (w', r') = QEnemy_take_turn i w pm r in pursuer_pass is w' pm r')"

text \<open>Lines 198 to 201: the spawn attempt.\<close>

definition spawn_cell :: "rand \<Rightarrow> (int \<times> int) \<times> rand" where
  "spawn_cell r =
     (let (spawn_x, r1) = randint 2 (GX - 4) r;
          (spawn_y, r2) = randint 1 (GY - 3) r1
      in ((spawn_x, spawn_y), r2))"

definition spawn :: "world \<Rightarrow> rand \<Rightarrow> world \<times> rand" where
  "spawn w r =
     (let ((spawn_x, spawn_y), r2) = spawn_cell r
      in (if \<not> is_solid_at w spawn_x spawn_y then add_entity w (QEnemy spawn_x spawn_y) else w,
          r2))"

text \<open>Lines 186 to 201: what follows a displacement of the player.\<close>

definition roamer_phase :: "world \<Rightarrow> rand \<Rightarrow> world \<times> rand" where
  "roamer_phase w r = roamer_pass (get_enemies w) w r"

definition pursuer_phase :: "world \<Rightarrow> int \<Rightarrow> rand \<Rightarrow> world \<times> rand" where
  "pursuer_phase w pm r = pursuer_pass (get_q_enemies w) w pm r"

definition enemy_phase :: "world \<Rightarrow> int \<Rightarrow> rand \<Rightarrow> world \<times> rand" where
  "enemy_phase w pm r =
     (let (w1, r1) = roamer_phase w r in pursuer_phase w1 pm r1)"

definition after_move :: "world \<Rightarrow> int \<Rightarrow> rand \<Rightarrow> world \<times> rand" where
  "after_move w pm r =
     (let (w2, r2) = enemy_phase w pm r
      in if pm mod Q_SPAWN_INTERVAL = 0 then spawn w2 r2 else (w2, r2))"

text \<open>Lines 168 to 183: the player's move. The result says whether the player moved.\<close>

definition player_target :: "state \<Rightarrow> int \<times> int" where
  "player_target s =
     (let p = entities (world s) ! player s
      in (ent_x p + fst (direction s), ent_y p + snd (direction s)))"

definition player_step :: "state \<Rightarrow> world \<times> bool" where
  "player_step s =
     (let w = world s;
          (new_x, new_y) = player_target s
      in case get_entity_at w new_x new_y of
           Some target \<Rightarrow>
             if ent_char target = ''E'' \<or> ent_char target = ''Q'' then (w\<lparr>game_over := True\<rparr>, False)
             else if ent_char target = ''G'' then (w\<lparr>win := True\<rparr>, False)
             else if \<not> ent_solid target then (relocate (player s) new_x new_y w, True)
             else (w, False)
         | None \<Rightarrow>
             if \<not> is_solid_at w new_x new_y then (relocate (player s) new_x new_y w, True)
             else (w, False))"

text \<open>Lines 167 to 203: the body of \<^verbatim>\<open>if direction != (0, 0)\<close>.\<close>

definition resolve :: "state \<Rightarrow> state" where
  "resolve s =
     (let (w1, moved_this_turn) = player_step s
      in if moved_this_turn
         then (let pm = player_moves s + 1;
                   (w2, r2) = after_move w1 pm (rng s)
               in s\<lparr>world := w2, player_moves := pm, rng := r2, direction := (0, 0)\<rparr>)
         else s\<lparr>world := w1, direction := (0, 0)\<rparr>)"

text \<open>
  Lines 151 to 165. \<^verbatim>\<open>getch\<close> returns \<open>-1\<close> or a key code; \<^verbatim>\<open>chr(key).lower()\<close> is compared
  with five ASCII letters, which only the letter itself and its capital lower to. The
  result \<open>None\<close> is the \<^verbatim>\<open>break\<close>.
\<close>

definition lower :: "int \<Rightarrow> int" where
  "lower k = (if 65 \<le> k \<and> k \<le> 90 then k + 32 else k)"

definition read_key :: "int \<Rightarrow> int \<times> int \<Rightarrow> (int \<times> int) option" where
  "read_key key dir =
     (if key \<noteq> -1 then
        (let ch = lower key
         in if ch = 113 then None
            else if ch = 119 then Some (0, -1)
            else if ch = 115 then Some (0, 1)
            else if ch = 97 then Some (-1, 0)
            else if ch = 100 then Some (1, 0)
            else Some dir)
      else Some dir)"

text \<open>One iteration of the \<^verbatim>\<open>while\<close> loop (drawing and sleeping left out).\<close>

definition tick :: "int \<Rightarrow> state \<Rightarrow> state option" where
  "tick key s =
     (case read_key key (direction s) of
        None \<Rightarrow> None
      | Some d \<Rightarrow>
          (let s1 = s\<lparr>direction := d\<rparr>
           in Some (if direction s1 \<noteq> (0, 0) then resolve s1 else s1)))"

text \<open>
  The loop on the successive results of \<^verbatim>\<open>getch\<close>. It stops on a terminal flag, on the quit
  key, or here when the given inputs are used up.
\<close>

fun main_loop :: "int list \<Rightarrow> state \<Rightarrow> state" where
  "main_loop [] s = s"
| "main_loop (key # keys) s =
     (if \<not> game_over (world s) \<and> \<not> win (world s)
      then (case tick key s of None \<Rightarrow> s | Some s' \<Rightarrow> main_loop keys s')
      else s)"

text \<open>Lines 210 to 213: the outcome shown after the loop.\<close>

datatype status = Playing | Won | Lost

definition status_of :: "world \<Rightarrow> status" where
  "status_of w = (if win w then Won else if game_over w then Lost else Playing)"

text \<open>Lines 130 to 148: the initial state of \<^verbatim>\<open>main\<close>.\<close>

definition initial_world :: world where
  "initial_world =
     foldl add_entity (World GX GY)
       ([Entity 1 (GY - 2) ''@'' True,
         Enemy 10 (GY - 2), Enemy 18 (GY - 3), Enemy 24 (GY - 2),
         Entity (GX - 3) (GY - 2) ''G'' False]
        @ map (\<lambda>x. Entity x (GY - 1) ''#'' True) [0..GX - 1])"

definition initial_state :: "rand \<Rightarrow> state" where
  "initial_state r =
     \<lparr>world = initial_world, player = 0, direction = (0, 0), player_moves = 0, rng = r\<rparr>"

section \<open>Test layouts\<close>

text \<open>
  The small layout of the specification's scenarios, built in the order \<^verbatim>\<open>main\<close> builds
  its own: a 12 by 3 world, the player at (1, 1), the given enemies, the goal at (9, 1) and
  a wall along \<open>y = 2\<close>.
\<close>

definition scenario_world :: "entity list \<Rightarrow> world" where
  "scenario_world enemies =
     foldl add_entity (World 12 3)
       ([Entity 1 1 ''@'' True] @ enemies @ [Entity 9 1 ''G'' False]
        @ map (\<lambda>x. Entity x 2 ''#'' True) [0..11])"

definition scenario :: "entity list \<Rightarrow> int \<Rightarrow> rand \<Rightarrow> state" where
  "scenario enemies pm r =
     \<lparr>world = scenario_world enemies, player = 0, direction = (0, 0), player_moves = pm,
      rng = r\<rparr>"

text \<open>The key code of \<^verbatim>\<open>d\<close>, which moves right, and a random source whose every draw selects
  the fifth move, \<open>(0, 0)\<close>.\<close>

definition key_right :: int where "key_right = 100"

definition always_stay :: rand where "always_stay = (\<lambda>n. 4)"

definition beside_goal :: state where
  \<comment> \<open>scenario A after seven moves to the right: the player at (8, 1), next to the goal\<close>
  "beside_goal = main_loop (replicate 7 key_right) (scenario [] 0 always_stay)"

definition spawn_draws :: rand where
  \<comment> \<open>the first draw selects "stay", the next two the spawn cell (3, 1)\<close>
  "spawn_draws = (\<lambda>n. if n = 1 then 1 else if n = 2 then 0 else 4)"

definition ninth_move :: state where
  \<comment> \<open>nine moves made, a pursuer at (6, 1): the next displacement is a spawning turn\<close>
  "ninth_move = scenario [QEnemy 6 1] 9 spawn_draws"

definition pursuit_world :: world where
  \<comment> \<open>scenario C: a pursuer at (3, 1), at Manhattan distance 2 of the player\<close>
  "pursuit_world = scenario_world [QEnemy 3 1]"

section \<open>Occupancy predicates\<close>

text \<open>The properties of a world that the theorems below speak of, as executable tests.\<close>

definition cell :: "entity \<Rightarrow> int \<times> int" where
  "cell e = (ent_x e, ent_y e)"

definition is_enemy :: "entity \<Rightarrow> bool" where
  "is_enemy e = (ent_char e = ''E'' \<or> ent_char e = ''Q'')"

definition enemies_stacked :: "world \<Rightarrow> bool" where
  \<comment> \<open>two distinct enemy objects occupy the same cell\<close>
  "enemies_stacked w =
     (let es = entities w; n = length es
      in list_ex (\<lambda>i. list_ex (\<lambda>j. i \<noteq> j \<and> is_enemy (es ! i) \<and> is_enemy (es ! j)
                                     \<and> cell (es ! i) = cell (es ! j)) [0..<n]) [0..<n])"

definition solids_apart :: "world \<Rightarrow> bool" where
  \<comment> \<open>no two distinct solid objects occupy the same cell\<close>
  "solids_apart w =
     (let es = entities w; n = length es
      in list_all (\<lambda>i. list_all (\<lambda>j. i = j \<or> \<not> ent_solid (es ! i) \<or> \<not> ent_solid (es ! j)
                                      \<or> cell (es ! i) \<noteq> cell (es ! j)) [0..<n]) [0..<n])"

definition only_goal_passable :: "world \<Rightarrow> bool" where
  \<comment> \<open>every object is solid, the goal apart\<close>
  "only_goal_passable w = list_all (\<lambda>e. ent_solid e \<or> ent_char e = ''G'') (entities w)"

definition separated :: "world \<Rightarrow> bool" where
  "separated w = (solids_apart w \<and> only_goal_passable w)"

definition player_ok :: "state \<Rightarrow> bool" where
  \<comment> \<open>the reference \<^verbatim>\<open>player\<close> denotes an object of the world, drawn as \<^verbatim>\<open>@\<close>\<close>
  "player_ok s =
     (player s < length (entities (world s))
      \<and> ent_char (entities (world s) ! player s) = ''@'')"

section \<open>Pursuer activation\<close>

text \<open>
  Claim C6. A pursuer activated while \<open>player_moves\<close> is not a multiple of the move interval
  does nothing: the world (its position and the flags with it) is returned as it was, and
  no random draw is consumed.
\<close>

theorem pursuer_idle_off_interval:
  "pm mod Q_MOVE_INTERVAL \<noteq> 0 \<Longrightarrow> QEnemy_take_turn i w pm r = (w, r)"
  by (simp add: QEnemy_take_turn_def)

theorem pursuer_idle_off_interval_witness:
  "(3::int) mod Q_MOVE_INTERVAL \<noteq> 0
   \<and> QEnemy_take_turn 1 pursuit_world 3 always_stay = (pursuit_world, always_stay)"
proof -
  have odd: "(3::int) mod Q_MOVE_INTERVAL \<noteq> 0"
    by (simp add: Q_MOVE_INTERVAL_def)
  from odd pursuer_idle_off_interval [OF odd, of 1 pursuit_world always_stay]
  show ?thesis by simp
qed

text \<open>
  Claim C5. A pursuer activated while \<open>player_moves\<close> is a multiple of the move interval
  sets \<open>game_over\<close> whenever, once its move attempt is resolved, it stands at Manhattan
  distance at most \<open>Q_RANGE = 2\<close> of the player, whether it moved or not; the status is then
  Lost (the activation runs in a turn that did not win).
\<close>

theorem pursuer_detects_within_range:
  assumes "pm mod Q_MOVE_INTERVAL = 0" and "i < length (entities w)" and "\<not> win w"
    and "QEnemy_take_turn i w pm r = (w', r')"
    and "get_player w' = Some p"
    and "\<bar>ent_x (entities w' ! i) - ent_x p\<bar> + \<bar>ent_y (entities w' ! i) - ent_y p\<bar> \<le> Q_RANGE"
  shows "game_over w' \<and> status_of w' = Lost"
  using assms
  by (auto simp: QEnemy_take_turn_def QEnemy_act_def Let_def random_choice_def get_player_def
        status_of_def relocate_def
      split: if_splits option.splits prod.splits)

text \<open>Scenario C: the pursuer at distance exactly 2 draws "stay" and the game is lost.\<close>

theorem pursuer_detects_within_range_witness:
  "(2::int) mod Q_MOVE_INTERVAL = 0
   \<and> entities (fst (QEnemy_take_turn 1 pursuit_world 2 always_stay)) ! 1 = QEnemy 3 1
   \<and> get_player (fst (QEnemy_take_turn 1 pursuit_world 2 always_stay))
       = Some (Entity 1 1 ''@'' True)
   \<and> game_over (fst (QEnemy_take_turn 1 pursuit_world 2 always_stay))
   \<and> status_of (fst (QEnemy_take_turn 1 pursuit_world 2 always_stay)) = Lost"
proof -
  let ?w' = "fst (QEnemy_take_turn 1 pursuit_world 2 always_stay)"
  let ?p = "Entity 1 1 ''@'' True"
  have 1: "(2::int) mod Q_MOVE_INTERVAL = 0" by code_simp
  have 2: "1 < length (entities pursuit_world)" by code_simp
  have 3: "\<not> win pursuit_world" by code_simp
  have 4: "QEnemy_take_turn 1 pursuit_world 2 always_stay
           = (?w', snd (QEnemy_take_turn 1 pursuit_world 2 always_stay))" by simp
  have 5: "get_player ?w' = Some ?p" by code_simp
  have 6: "\<bar>ent_x (entities ?w' ! 1) - ent_x ?p\<bar> + \<bar>ent_y (entities ?w' ! 1) - ent_y ?p\<bar>
           \<le> Q_RANGE" by code_simp
  have 7: "entities ?w' ! 1 = QEnemy 3 1" by code_simp
  from pursuer_detects_within_range [OF 1 2 3 4 5 6] 1 5 7 show ?thesis by simp
qed

section \<open>Input without a direction\<close>

text \<open>
  The variable \<^verbatim>\<open>direction\<close> is \<open>(0, 0)\<close> before the loop and is reset at the end of every
  iteration that used it: it is \<open>(0, 0)\<close> at the start of every iteration.
\<close>

lemma tick_resets_direction:
  "tick key s = Some s' \<Longrightarrow> direction s = (0, 0) \<Longrightarrow> direction s' = (0, 0)"
  by (auto simp: tick_def resolve_def Let_def split: option.splits prod.splits if_splits)

text \<open>
  Claim C9. An iteration that reads no key (\<open>-1\<close>) or a key other than the four direction
  letters leaves the whole state as it was: the world with its entities and flags, the
  counter, hence the status. (The quit key ends the loop, on the same state.)
\<close>

theorem non_directional_input_is_identity:
  assumes "direction s = (0, 0)" and "lower key \<notin> {119, 115, 97, 100}"
  shows "main_loop [key] s = s \<and> (tick key s = None \<or> tick key s = Some s)"
  using assms by (auto simp: tick_def read_key_def Let_def)

theorem non_directional_input_is_identity_witness:
  "direction (scenario [] 0 always_stay) = (0, 0) \<and> lower (-1) \<notin> {119, 115, 97, 100}
   \<and> main_loop [-1] (scenario [] 0 always_stay) = scenario [] 0 always_stay
   \<and> tick (-1) (scenario [] 0 always_stay) = Some (scenario [] 0 always_stay)"
proof -
  have d: "direction (scenario [] 0 always_stay) = (0, 0)"
    by (simp add: scenario_def)
  have k: "lower (-1) \<notin> {119, 115, 97, 100}"
    by (simp add: lower_def)
  have q: "tick (-1) (scenario [] 0 always_stay) \<noteq> None"
    by (simp add: tick_def read_key_def Let_def)
  from non_directional_input_is_identity [OF d k] d k q show ?thesis by simp
qed

section \<open>Scenario A\<close>

text \<open>
  Claim C2, as the program behaves. In the 12 by 3 world with the player at (1, 1), the wall
  along \<open>y = 2\<close>, the goal at (9, 1) and no enemy, eight times the key \<^verbatim>\<open>d\<close> give the status
  Won, after seven displacements, with the player at (8, 1): the eighth move finds the goal
  in its target cell, which sets \<open>win\<close> and leaves the player where it is.
\<close>

theorem scenario_A_won_beside_goal:
  "(let s = main_loop (replicate 8 key_right) (scenario [] 0 r)
    in status_of (world s) = Won \<and> player_moves s = 7
       \<and> ent_x (entities (world s) ! player s) = 8
       \<and> ent_y (entities (world s) ! player s) = 1)"
  by code_simp

text \<open>Claim C2, as stated, fails: the player is not at (9, 1) at the end.\<close>

theorem scenario_A_player_not_on_goal:
  "\<not> (let s = main_loop (replicate 8 key_right) (scenario [] 0 always_stay)
      in status_of (world s) = Won
         \<and> ent_x (entities (world s) ! player s) = 9
         \<and> ent_y (entities (world s) ! player s) = 1)"
  by code_simp

section \<open>What an activation leaves alone\<close>

text \<open>
  Relocating an object changes its coordinates and nothing else; the activations and the
  two passes leave the dimensions, the \<open>win\<close> flag, the number of objects and every object
  outside the pass as they were.
\<close>

lemma relocate_frame [simp]:
  "width (relocate i a b w) = width w"
  "height (relocate i a b w) = height w"
  "game_over (relocate i a b w) = game_over w"
  "win (relocate i a b w) = win w"
  "length (entities (relocate i a b w)) = length (entities w)"
  by (simp_all add: relocate_def)

lemma relocate_nth_other: "j \<noteq> i \<Longrightarrow> entities (relocate i a b w) ! j = entities w ! j"
  by (simp add: relocate_def)

lemma relocate_nth_same:
  "i < length (entities w) \<Longrightarrow>
   entities (relocate i a b w) ! i = (entities w ! i)\<lparr>ent_x := a, ent_y := b\<rparr>"
  by (simp add: relocate_def)

lemma Enemy_act_frame [simp]:
  "width (Enemy_act i w d) = width w"
  "height (Enemy_act i w d) = height w"
  "win (Enemy_act i w d) = win w"
  "length (entities (Enemy_act i w d)) = length (entities w)"
  by (simp_all add: Enemy_act_def Let_def split: option.splits)

lemma Enemy_act_nth_other: "j \<noteq> i \<Longrightarrow> entities (Enemy_act i w d) ! j = entities w ! j"
  by (simp add: Enemy_act_def Let_def relocate_nth_other split: option.splits)

lemma QEnemy_act_frame [simp]:
  "width (QEnemy_act i w d) = width w"
  "height (QEnemy_act i w d) = height w"
  "win (QEnemy_act i w d) = win w"
  "length (entities (QEnemy_act i w d)) = length (entities w)"
  by (simp_all add: QEnemy_act_def Let_def split: option.splits)

lemma QEnemy_act_nth_other: "j \<noteq> i \<Longrightarrow> entities (QEnemy_act i w d) ! j = entities w ! j"
  by (simp add: QEnemy_act_def Let_def relocate_nth_other split: option.splits)

lemma Enemy_take_turn_frame:
  assumes "Enemy_take_turn i w r = (w', r')"
  shows "width w' = width w" "height w' = height w" "win w' = win w"
    "length (entities w') = length (entities w)"
    "j \<noteq> i \<Longrightarrow> entities w' ! j = entities w ! j"
  using assms by (auto simp: Enemy_take_turn_def Enemy_act_nth_other split: prod.splits)

lemma QEnemy_take_turn_frame:
  assumes "QEnemy_take_turn i w pm r = (w', r')"
  shows "width w' = width w" "height w' = height w" "win w' = win w"
    "length (entities w') = length (entities w)"
    "j \<noteq> i \<Longrightarrow> entities w' ! j = entities w ! j"
  using assms
  by (auto simp: QEnemy_take_turn_def QEnemy_act_nth_other split: prod.splits if_splits)

lemma roamer_pass_frame:
  "roamer_pass is w r = (w', r') \<Longrightarrow>
   width w' = width w \<and> height w' = height w \<and> win w' = win w
   \<and> length (entities w') = length (entities w)
   \<and> (j \<notin> set is \<longrightarrow> entities w' ! j = entities w ! j)"
proof (induction "is" arbitrary: w r)
  case Nil
  then show ?case by simp
next
  case (Cons i "is")
  obtain w1 r1 where t: "Enemy_take_turn i w r = (w1, r1)"
    by (cases "Enemy_take_turn i w r")
  with Cons.prems have "roamer_pass is w1 r1 = (w', r')" by simp
  from Cons.IH [OF this] Enemy_take_turn_frame [OF t] show ?case by auto
qed

lemma pursuer_pass_frame:
  "pursuer_pass is w pm r = (w', r') \<Longrightarrow>
   width w' = width w \<and> height w' = height w \<and> win w' = win w
   \<and> length (entities w') = length (entities w)
   \<and> (j \<notin> set is \<longrightarrow> entities w' ! j = entities w ! j)"
proof (induction "is" arbitrary: w r)
  case Nil
  then show ?case by simp
next
  case (Cons i "is")
  obtain w1 r1 where t: "QEnemy_take_turn i w pm r = (w1, r1)"
    by (cases "QEnemy_take_turn i w pm r")
  with Cons.prems have "pursuer_pass is w1 pm r1 = (w', r')" by simp
  from Cons.IH [OF this] QEnemy_take_turn_frame [OF t] show ?case by auto
qed

lemma enemy_phase_frame:
  assumes "enemy_phase w pm r = (w', r')"
  shows "width w' = width w \<and> height w' = height w \<and> win w' = win w
   \<and> length (entities w') = length (entities w)
   \<and> (j < length (entities w) \<longrightarrow> \<not> is_enemy (entities w ! j) \<longrightarrow> entities w' ! j = entities w ! j)"
proof -
  obtain w1 r1 where a: "roamer_phase w r = (w1, r1)" by (cases "roamer_phase w r")
  with assms have b: "pursuer_phase w1 pm r1 = (w', r')" by (simp add: enemy_phase_def)
  note fa = roamer_pass_frame [OF a [unfolded roamer_phase_def], of j]
  note fb = pursuer_pass_frame [OF b [unfolded pursuer_phase_def], of j]
  show ?thesis using fa fb by (auto simp: get_enemies_def get_q_enemies_def is_enemy_def)
qed

lemma spawn_cell_range:
  "spawn_cell r = ((sx, sy), r') \<Longrightarrow> 2 \<le> sx \<and> sx \<le> GX - 4 \<and> 1 \<le> sy \<and> sy \<le> GY - 3"
  by (auto simp: spawn_cell_def randint_def GX_def GY_def split: prod.splits)

lemma spawn_frame [simp]:
  "width (fst (spawn w r)) = width w"
  "height (fst (spawn w r)) = height w"
  "win (fst (spawn w r)) = win w"
  "game_over (fst (spawn w r)) = game_over w"
  by (simp_all add: spawn_def add_entity_def split: prod.splits)

lemma after_move_win: "win (fst (after_move w pm r)) = win w"
proof -
  obtain w2 r2 where e: "enemy_phase w pm r = (w2, r2)" by (cases "enemy_phase w pm r")
  from enemy_phase_frame [OF e] have "win w2 = win w" by simp
  with e show ?thesis by (simp add: after_move_def)
qed

text \<open>
  A roamer moves only to a cell that \<^verbatim>\<open>is_solid_at\<close> rejects not; the cell of a solid player
  is rejected, so the comparison with the player's position on lines 42 to 44 is never
  reached with a true outcome.
\<close>

lemma solid_player_never_hit:
  assumes "get_player w = Some p" and "ent_solid p"
  shows "game_over (Enemy_act i w d) = game_over w"
proof -
  from assms(1) have "p \<in> set (entities w)"
    by (auto simp: get_player_def find_Some_iff)
  with assms(2) have "is_solid_at w (ent_x p) (ent_y p)"
    by (auto simp: is_solid_at_def list_ex_iff)
  then show ?thesis using assms(1)
    by (auto simp: Enemy_act_def Let_def split: option.splits)
qed

section \<open>Roamer and player\<close>

text \<open>
  Claim C1, evaluated. After eight moves to the right in the initial world of \<^verbatim>\<open>main\<close>
  (every roamer staying), the player is at (9, 10) and the first roamer at (10, 10). The
  roamer's activation with the move \<open>(-1, 0)\<close> has the player's cell as destination, and
  returns the world unchanged: \<open>game_over\<close> is not set.
\<close>

theorem roamer_reaching_player_is_blocked: "(let w = world (main_loop (replicate 8 key_right) (initial_state always_stay));
       e = entities w ! 1
   in get_player w = Some (entities w ! 0) \<and> cell (entities w ! 0) = (9, 10) \<and> ent_char e = ''E'' \<and> cell e = (10, 10) \<and> (-1, 0) \<in> set moves
   \<and> \<not> game_over w \<and> \<not> game_over (Enemy_act 1 w (-1, 0)) \<and> Enemy_act 1 w (-1, 0) = w)"
  by code_simp

section \<open>The win flag\<close>

text \<open>
  Claim C10. No roamer activation, no pursuer activation, no spawn step and nothing else
  that follows the player's displacement changes \<open>win\<close>; after an iteration, \<open>win\<close> holds
  exactly when it held before or the player's move found the goal as the first object of
  its target cell.
\<close>

theorem win_only_by_player_reaching_goal:
  assumes "read_key key (direction s) = Some d" and "tick key s = Some s'"
    and "player_target (s\<lparr>direction := d\<rparr>) = (tx, ty)"
  shows "win (fst (Enemy_take_turn i w r)) = win w
     \<and> win (fst (QEnemy_take_turn i w pm r)) = win w
     \<and> win (fst (spawn w r)) = win w
     \<and> win (fst (after_move w pm r)) = win w
     \<and> win (world s') =
         (win (world s) \<or>
          (d \<noteq> (0, 0) \<and> (\<exists>t. get_entity_at (world s) tx ty = Some t \<and> ent_char t = ''G'')))"
proof -
  have 1: "win (fst (Enemy_take_turn i w r)) = win w"
    by (simp add: Enemy_take_turn_def split: prod.splits)
  have 2: "win (fst (QEnemy_take_turn i w pm r)) = win w"
    by (simp add: QEnemy_take_turn_def split: prod.splits)
  have 5: "win (world s') =
         (win (world s) \<or>
          (d \<noteq> (0, 0) \<and> (\<exists>t. get_entity_at (world s) tx ty = Some t \<and> ent_char t = ''G'')))"
  proof (cases "d = (0, 0)")
    case True
    with assms show ?thesis by (auto simp: tick_def Let_def)
  next
    case False
    let ?s1 = "s\<lparr>direction := d\<rparr>"
    from False assms have s': "s' = resolve ?s1" by (auto simp: tick_def Let_def)
    obtain w1 moved where ps: "player_step ?s1 = (w1, moved)" by (cases "player_step ?s1")
    have w1: "win w1 = (win (world s) \<or> (\<exists>t. get_entity_at (world s) tx ty = Some t \<and> ent_char t = ''G''))"
      using ps assms(3) by (auto simp: player_step_def Let_def split: option.splits if_splits)
    have "win (world s') = win w1"
      using s' ps after_move_win [of w1 "player_moves s + 1" "rng s"]
      by (auto simp: resolve_def Let_def split: prod.splits)
    with w1 False show ?thesis by simp
  qed
  from 1 2 5 show ?thesis by (simp add: after_move_win)
qed


theorem win_only_by_player_reaching_goal_witness:
  "read_key key_right (direction beside_goal) = Some (1, 0)
   \<and> player_target (beside_goal\<lparr>direction := (1, 0)\<rparr>) = (9, 1)
   \<and> get_entity_at (world beside_goal) 9 1 = Some (Entity 9 1 ''G'' False)
   \<and> \<not> win (world beside_goal) \<and> win (world (the (tick key_right beside_goal)))
   \<and> win (fst (Enemy_take_turn 1 pursuit_world always_stay)) = win pursuit_world"
proof -
  have 1: "read_key key_right (direction beside_goal) = Some (1, 0)" by code_simp
  have 2: "tick key_right beside_goal = Some (the (tick key_right beside_goal))"
    using 1 by (simp add: tick_def)
  have 3: "player_target (beside_goal\<lparr>direction := (1, 0)\<rparr>) = (9, 1)" by code_simp
  have 4: "get_entity_at (world beside_goal) 9 1 = Some (Entity 9 1 ''G'' False)" by code_simp
  have 5: "\<not> win (world beside_goal)" by code_simp
  from win_only_by_player_reaching_goal [OF 1 2 3, of 1 pursuit_world always_stay]
    1 3 4 5 show ?thesis by (simp add: Entity_def)
qed

section \<open>One iteration, step by step\<close>

text \<open>
  The iteration unfolded along the program text: the key read, the player's move, the two
  activation passes, the spawn attempt.
\<close>

lemma player_step_shape:
  assumes "player_step s = (w1, moved)" and "player_target s = (tx, ty)"
  shows "entities w1 = (if moved then entities (relocate (player s) tx ty (world s))
                        else entities (world s))"
    and "width w1 = width (world s)" and "height w1 = height (world s)"
    and "length (entities w1) = length (entities (world s))"
  using assms
  by (auto simp: player_step_def Let_def split: option.splits if_splits)

lemma tick_unfold:
  assumes "read_key key (direction s) = Some d"
    and "player_step (s\<lparr>direction := d\<rparr>) = (w1, moved)"
  shows "tick key s =
     Some (if d = (0, 0) then s\<lparr>direction := d\<rparr>
           else if \<not> moved then s\<lparr>world := w1, direction := (0, 0)\<rparr>
           else s\<lparr>world := fst (after_move w1 (player_moves s + 1) (rng s)),
                  player_moves := player_moves s + 1,
                  rng := snd (after_move w1 (player_moves s + 1) (rng s)),
                  direction := (0, 0)\<rparr>)"
  using assms by (simp add: tick_def resolve_def Let_def split: prod.splits)

lemma spawn_shape:
  assumes "spawn_cell r = ((sx, sy), r')"
  shows "spawn w r = (if is_solid_at w sx sy then w else add_entity w (QEnemy sx sy), r')"
  using assms by (simp add: spawn_def)

lemma get_q_enemies_bound: "i \<in> set (get_q_enemies w) \<Longrightarrow> i < length (entities w)"
  by (simp add: get_q_enemies_def)

section \<open>The spawn step\<close>

text \<open>
  Claim C7. In an iteration, the spawn attempt (lines 198 to 201) runs exactly when the
  counter was incremented by a displacement of the player and its new value is a multiple
  of \<open>Q_SPAWN_INTERVAL = 10\<close>: then the world and the random source are those that \<open>spawn\<close>
  returns, one pursuer being added at the drawn cell if that cell is not solid and nothing
  otherwise; in every other iteration the number of objects is unchanged and no draw is
  made for a spawn. The counter is incremented exactly when the player moved. The drawn
  cell has \<open>2 \<le> x \<le> GX - 4\<close> and \<open>1 \<le> y \<le> GY - 3\<close>.
\<close>

theorem spawn_attempt_on_tenth_move:
  assumes rk: "read_key key (direction s) = Some d" and t: "tick key s = Some s'"
    and ps: "player_step (s\<lparr>direction := d\<rparr>) = (w1, moved)"
    and ep: "enemy_phase w1 (player_moves s + 1) (rng s) = (w2, r2)"
    and sc: "spawn_cell r2 = ((sx, sy), r3)"
  shows "(player_moves s' = player_moves s + 1) = (d \<noteq> (0, 0) \<and> moved)
   \<and> (player_moves s' = player_moves s + 1 \<and> player_moves s' mod Q_SPAWN_INTERVAL = 0 \<longrightarrow>
        (world s', rng s') = spawn w2 r2 \<and> rng s' = r3
        \<and> world s' = (if is_solid_at w2 sx sy then w2 else add_entity w2 (QEnemy sx sy)))
   \<and> (\<not> (player_moves s' = player_moves s + 1 \<and> player_moves s' mod Q_SPAWN_INTERVAL = 0) \<longrightarrow>
        length (entities (world s')) = length (entities (world s))
        \<and> rng s' = (if d \<noteq> (0, 0) \<and> moved then r2 else rng s))
   \<and> length (entities w2) = length (entities (world s))
   \<and> length (entities (world s')) \<le> length (entities (world s)) + 1
   \<and> 2 \<le> sx \<and> sx \<le> GX - 4 \<and> 1 \<le> sy \<and> sy \<le> GY - 3"
proof -
  obtain tx ty where tg: "player_target (s\<lparr>direction := d\<rparr>) = (tx, ty)"
    by (cases "player_target (s\<lparr>direction := d\<rparr>)")
  have l1: "length (entities w1) = length (entities (world s))"
    using player_step_shape(4) [OF ps tg] by simp
  have l2: "length (entities w2) = length (entities (world s))"
    using enemy_phase_frame [OF ep, of 0] l1 by simp
  note sp = spawn_shape [OF sc, of w2]
  note rg = spawn_cell_range [OF sc]
  from t tick_unfold [OF rk ps] have s': "s' =
     (if d = (0, 0) then s\<lparr>direction := d\<rparr>
           else if \<not> moved then s\<lparr>world := w1, direction := (0, 0)\<rparr>
           else s\<lparr>world := fst (after_move w1 (player_moves s + 1) (rng s)),
                  player_moves := player_moves s + 1,
                  rng := snd (after_move w1 (player_moves s + 1) (rng s)),
                  direction := (0, 0)\<rparr>)" by simp
  have am: "after_move w1 (player_moves s + 1) (rng s) =
      (if (player_moves s + 1) mod Q_SPAWN_INTERVAL = 0 then spawn w2 r2 else (w2, r2))"
    using ep by (simp add: after_move_def)
  show ?thesis
    using s' am sp rg l1 l2 by (auto simp: add_entity_def)
qed

text \<open>The tenth move of a run of scenario A with a pursuer: a pursuer appears at (3, 1).\<close>

theorem spawn_attempt_on_tenth_move_witness:
  "read_key key_right (direction ninth_move) = Some (1, 0)
   \<and> player_moves ninth_move = 9
   \<and> player_moves (the (tick key_right ninth_move)) = 10
   \<and> (10::int) mod Q_SPAWN_INTERVAL = 0
   \<and> length (entities (world (the (tick key_right ninth_move))))
       = length (entities (world ninth_move)) + 1
   \<and> world (the (tick key_right ninth_move))
       = add_entity (fst (enemy_phase (fst (player_step (ninth_move\<lparr>direction := (1, 0)\<rparr>)))
                            10 (rng ninth_move))) (QEnemy 3 1)"
proof -
  let ?s = ninth_move
  let ?s' = "the (tick key_right ninth_move)"
  let ?ps = "player_step (ninth_move\<lparr>direction := (1, 0)\<rparr>)"
  let ?ep = "enemy_phase (fst ?ps) (player_moves ?s + 1) (rng ?s)"
  let ?sc = "spawn_cell (snd ?ep)"
  have rk: "read_key key_right (direction ?s) = Some (1, 0)" by code_simp
  have t: "tick key_right ?s = Some ?s'" using rk by (simp add: tick_def)
  have ps: "?ps = (fst ?ps, snd ?ps)" by simp
  have ep: "?ep = (fst ?ep, snd ?ep)" by simp
  have c: "fst ?sc = (3, 1)" by code_simp
  have sc: "?sc = ((3, 1), snd ?sc)" using c by (metis prod.collapse)
  have pm: "player_moves ?s = 9" by code_simp
  have pm': "player_moves ?s' = 10" by code_simp
  have q: "(10::int) mod Q_SPAWN_INTERVAL = 0" by code_simp
  have ns: "\<not> is_solid_at (fst ?ep) 3 1" by code_simp
  have len: "length (entities (world ?s')) = length (entities (world ?s)) + 1" by code_simp
  from spawn_attempt_on_tenth_move [OF rk t ps ep sc] pm pm' q ns
  have "world ?s' = add_entity (fst ?ep) (QEnemy 3 1)" by simp
  with rk pm pm' q len show ?thesis by simp
qed

text \<open>
  Claim C8. When an iteration has added an object, that object is the pursuer created by
  the spawn step, appended after the pursuer pass: the pass ran over indices of objects
  that existed before, the new pursuer still stands on its spawn cell, and \<open>game_over\<close> and
  the random source are as the pass and the draw of the cell left them. The new pursuer
  took no turn.
\<close>

theorem spawned_pursuer_not_activated:
  assumes rk: "read_key key (direction s) = Some d" and t: "tick key s = Some s'"
    and ps: "player_step (s\<lparr>direction := d\<rparr>) = (w1, moved)"
    and rp: "roamer_phase w1 (rng s) = (wr, rr)"
    and pp: "pursuer_phase wr (player_moves s + 1) rr = (w2, r2)"
    and sc: "spawn_cell r2 = ((sx, sy), r3)"
    and grew: "length (entities (world s')) \<noteq> length (entities (world s))"
  shows "(\<forall>i \<in> set (get_q_enemies wr). i < length (entities (world s)))
   \<and> world s' = add_entity w2 (QEnemy sx sy) \<and> rng s' = r3
   \<and> entities (world s') ! length (entities (world s)) = QEnemy sx sy
   \<and> game_over (world s') = game_over w2"
proof -
  have ep: "enemy_phase w1 (player_moves s + 1) (rng s) = (w2, r2)"
    using rp pp by (simp add: enemy_phase_def)
  obtain tx ty where tg: "player_target (s\<lparr>direction := d\<rparr>) = (tx, ty)"
    by (cases "player_target (s\<lparr>direction := d\<rparr>)")
  have l1: "length (entities w1) = length (entities (world s))"
    using player_step_shape(4) [OF ps tg] by simp
  have lr: "length (entities wr) = length (entities (world s))"
    using roamer_pass_frame [OF rp [unfolded roamer_phase_def], of 0] l1 by simp
  have l2: "length (entities w2) = length (entities (world s))"
    using enemy_phase_frame [OF ep, of 0] l1 by simp
  note sp = spawn_shape [OF sc, of w2]
  from t tick_unfold [OF rk ps] have s': "s' =
     (if d = (0, 0) then s\<lparr>direction := d\<rparr>
           else if \<not> moved then s\<lparr>world := w1, direction := (0, 0)\<rparr>
           else s\<lparr>world := fst (after_move w1 (player_moves s + 1) (rng s)),
                  player_moves := player_moves s + 1,
                  rng := snd (after_move w1 (player_moves s + 1) (rng s)),
                  direction := (0, 0)\<rparr>)" by simp
  have am: "after_move w1 (player_moves s + 1) (rng s) =
      (if (player_moves s + 1) mod Q_SPAWN_INTERVAL = 0 then spawn w2 r2 else (w2, r2))"
    using ep by (simp add: after_move_def)
  have a: "world s' = add_entity w2 (QEnemy sx sy) \<and> rng s' = r3"
    using s' am sp grew l1 l2 by (auto split: if_splits)
  have b: "\<forall>i \<in> set (get_q_enemies wr). i < length (entities (world s))"
    using get_q_enemies_bound [of _ wr] lr by auto
  from a b l2 [symmetric] show ?thesis by (simp add: add_entity_def)
qed

text \<open>
  In that turn the new pursuer stands next to the player, who moved to (2, 1), and the
  game is not over: the pursuer pass ran over the one older pursuer only.
\<close>

theorem spawned_pursuer_not_activated_witness:
  "length (entities (world (the (tick key_right ninth_move))))
     \<noteq> length (entities (world ninth_move))
   \<and> get_q_enemies (fst (roamer_phase (fst (player_step (ninth_move\<lparr>direction := (1, 0)\<rparr>)))
                              (rng ninth_move))) = [1]
   \<and> length (entities (world ninth_move)) = 15
   \<and> entities (world (the (tick key_right ninth_move))) ! 15 = QEnemy 3 1
   \<and> cell (entities (world (the (tick key_right ninth_move))) ! 0) = (2, 1)
   \<and> \<not> game_over (world (the (tick key_right ninth_move)))"
proof -
  let ?s = ninth_move
  let ?s' = "the (tick key_right ninth_move)"
  let ?ps = "player_step (ninth_move\<lparr>direction := (1, 0)\<rparr>)"
  let ?rp = "roamer_phase (fst ?ps) (rng ?s)"
  let ?pp = "pursuer_phase (fst ?rp) (player_moves ?s + 1) (snd ?rp)"
  let ?sc = "spawn_cell (snd ?pp)"
  have rk: "read_key key_right (direction ?s) = Some (1, 0)" by code_simp
  have t: "tick key_right ?s = Some ?s'" using rk by (simp add: tick_def)
  have ps: "?ps = (fst ?ps, snd ?ps)" by simp
  have rp: "?rp = (fst ?rp, snd ?rp)" by simp
  have pp: "?pp = (fst ?pp, snd ?pp)" by simp
  have c: "fst ?sc = (3, 1)" by code_simp
  have sc: "?sc = ((3, 1), snd ?sc)" using c by (metis prod.collapse)
  have grew: "length (entities (world ?s')) \<noteq> length (entities (world ?s))" by code_simp
  have n: "length (entities (world ?s)) = 15" by code_simp
  have q: "get_q_enemies (fst ?rp) = [1]" by code_simp
  have pc: "cell (entities (world ?s') ! 0) = (2, 1)" by code_simp
  have g: "\<not> game_over (fst ?pp)" by code_simp
  note th = spawned_pursuer_not_activated [OF rk t ps rp pp sc grew]
  from th have e: "entities (world ?s') ! length (entities (world ?s)) = QEnemy 3 1"
    and go: "game_over (world ?s') = game_over (fst ?pp)" by blast+
  from e n have e': "entities (world ?s') ! 15 = QEnemy 3 1" by (simp only:)
  from go g have g': "\<not> game_over (world ?s')" by blast
  from grew n q pc e' g' show ?thesis by blast
qed

section \<open>The move counter\<close>

text \<open>
  Claim C4. In every iteration \<open>player_moves\<close> stays or grows by one, and it grows exactly
  when the player's cell after the iteration differs from its cell before.
\<close>

theorem player_moves_counts_displacements:
  assumes ok: "player_ok s" and t: "tick key s = Some s'"
  shows "(player_moves s' = player_moves s \<or> player_moves s' = player_moves s + 1)
    \<and> (player_moves s' = player_moves s + 1)
        = (cell (entities (world s') ! player s') \<noteq> cell (entities (world s) ! player s))
    \<and> player s' = player s"
proof -
  from t obtain d where rk: "read_key key (direction s) = Some d"
    by (auto simp: tick_def split: option.splits)
  let ?s1 = "s\<lparr>direction := d\<rparr>"
  let ?p = "player s"
  let ?pm = "player_moves s + 1"
  obtain w1 moved where ps: "player_step ?s1 = (w1, moved)" by (cases "player_step ?s1")
  obtain tx ty where tg: "player_target ?s1 = (tx, ty)" by (cases "player_target ?s1")
  obtain w2 r2 where ep: "enemy_phase w1 ?pm (rng s) = (w2, r2)"
    by (cases "enemy_phase w1 ?pm (rng s)")
  obtain sx sy r3 where sc: "spawn_cell r2 = ((sx, sy), r3)"
    by (cases "spawn_cell r2") auto
  from ok have pl: "?p < length (entities (world s))"
    and pc: "ent_char (entities (world s) ! ?p) = ''@''" by (simp_all add: player_ok_def)
  note sh = player_step_shape [OF ps tg]
  from t tick_unfold [OF rk ps] have s': "s' =
     (if d = (0, 0) then s\<lparr>direction := d\<rparr>
           else if \<not> moved then s\<lparr>world := w1, direction := (0, 0)\<rparr>
           else s\<lparr>world := fst (after_move w1 ?pm (rng s)),
                  player_moves := ?pm,
                  rng := snd (after_move w1 ?pm (rng s)),
                  direction := (0, 0)\<rparr>)" by simp
  show ?thesis
  proof (cases "d \<noteq> (0, 0) \<and> moved")
    case False
    with s' sh(1) show ?thesis by auto
  next
    case True
    have e1: "entities w1 ! ?p = (entities (world s) ! ?p)\<lparr>ent_x := tx, ent_y := ty\<rparr>"
      using sh(1) True pl by (simp add: relocate_nth_same)
    have ne: "\<not> is_enemy (entities w1 ! ?p)"
      using e1 pc by (simp add: is_enemy_def)
    have l1: "?p < length (entities w1)" using sh(4) pl by simp
    from enemy_phase_frame [OF ep, of ?p] ne l1
    have e2: "entities w2 ! ?p = entities w1 ! ?p" and l2: "?p < length (entities w2)"
      by simp_all
    have am: "after_move w1 ?pm (rng s) =
      (if ?pm mod Q_SPAWN_INTERVAL = 0 then spawn w2 r2 else (w2, r2))"
      using ep by (simp add: after_move_def)
    have e3: "entities (fst (after_move w1 ?pm (rng s))) ! ?p = entities w2 ! ?p"
      using am spawn_shape [OF sc, of w2] l2 by (simp add: add_entity_def nth_append)
    have tgt: "(tx, ty) = (ent_x (entities (world s) ! ?p) + fst d, ent_y (entities (world s) ! ?p) + snd d)"
      using tg by (simp add: player_target_def Let_def)
    have "cell (entities (world s') ! ?p) \<noteq> cell (entities (world s) ! ?p)"
      using s' True e1 e2 e3 tgt by (cases d) (auto simp: cell_def)
    with s' True show ?thesis by auto
  qed
qed


theorem player_moves_counts_displacements_witness:
  "player_ok ninth_move
   \<and> player_moves ninth_move = 9
   \<and> player_moves (the (tick key_right ninth_move)) = 10
   \<and> cell (entities (world ninth_move) ! player ninth_move) = (1, 1)
   \<and> cell (entities (world (the (tick key_right ninth_move)))
             ! player (the (tick key_right ninth_move))) \<noteq> (1, 1)"
proof -
  let ?s = ninth_move
  let ?s' = "the (tick key_right ninth_move)"
  have ok: "player_ok ?s" by code_simp
  have rk: "read_key key_right (direction ?s) = Some (1, 0)" by code_simp
  have t: "tick key_right ?s = Some ?s'" using rk by (simp add: tick_def)
  have pm: "player_moves ?s = 9" by code_simp
  have pm': "player_moves ?s' = 10" by code_simp
  have c: "cell (entities (world ?s) ! player ?s) = (1, 1)" by code_simp
  note th = player_moves_counts_displacements [OF ok t]
  from th have "(player_moves ?s' = player_moves ?s + 1)
        = (cell (entities (world ?s') ! player ?s') \<noteq> cell (entities (world ?s) ! player ?s))"
    by blast
  with pm pm' c have "cell (entities (world ?s') ! player ?s') \<noteq> (1, 1)" by simp
  with ok pm pm' c show ?thesis by blast
qed


end
